theory Spec2Isabelle
  imports Main "HOL-Library.Word" "HOL-Library.Sublist"
begin

section \<open>JoinUs chat server: validation and the meeting registry\<close>

text \<open>
  A shallow embedding of \<^verbatim>\<open>utils/validation.ts\<close>, \<^verbatim>\<open>models/meeting.ts\<close>,
  \<^verbatim>\<open>services/meetingService.ts\<close> and the \<^verbatim>\<open>join-meeting\<close> handler of
  \<^verbatim>\<open>server.ts\<close>. In the sources the service and the server follow one another in
  \<^verbatim>\<open>src/services/aiService.ts\<close>, each under its module header.

  A JavaScript string is a sequence of UTF-16 code units, and \<^verbatim>\<open>length\<close> counts code
  units; so a string is a list of 16-bit words. A \<^verbatim>\<open>Date\<close> is a number of milliseconds.
\<close>

type_synonym jsstring = "16 word list"

type_synonym date = nat

definition js :: "string \<Rightarrow> jsstring" where
  "js = map of_char"

subsection \<open>utils/validation.ts\<close>

text \<open>The class \<^verbatim>\<open>\d\<close> of a JavaScript regular expression: the ten ASCII digits.\<close>

definition isDigit :: "16 word \<Rightarrow> bool" where
  "isDigit c = (0x30 \<le> c \<and> c \<le> 0x39)"

text \<open>
  \<^verbatim>\<open>\d{n}\<close>: consume exactly \<open>n\<close> digits from the front of the input and return the rest,
  or fail.
\<close>

fun matchDigits :: "nat \<Rightarrow> jsstring \<Rightarrow> jsstring option" where
  "matchDigits 0 s = Some s"
| "matchDigits (Suc n) [] = None"
| "matchDigits (Suc n) (c # s) = (if isDigit c then matchDigits n s else None)"

text \<open>
  \<^verbatim>\<open>/^\d{6}$/.test(meetingId)\<close>: the match starts at the first code unit, takes six
  digits, and \<^verbatim>\<open>$\<close> (no multiline flag) holds only at the end of the input.
\<close>

definition isValidMeetingId :: "jsstring \<Rightarrow> bool" where
  "isValidMeetingId meetingId =
     (case matchDigits 6 meetingId of None \<Rightarrow> False | Some rest \<Rightarrow> rest = [])"

text \<open>
  The code units that \<^verbatim>\<open>String.prototype.trim\<close> strips: ECMAScript's WhiteSpace
  (TAB, VT, FF, SP, NBSP, ZWNBSP and the space separators) and LineTerminator
  (LF, CR, LS, PS).
\<close>

definition isWhiteSpace :: "16 word \<Rightarrow> bool" where
  "isWhiteSpace c =
     (c \<in> {0x09, 0x0A, 0x0B, 0x0C, 0x0D, 0x20, 0xA0, 0x1680, 0x2028, 0x2029,
           0x202F, 0x205F, 0x3000, 0xFEFF}
      \<or> (0x2000 \<le> c \<and> c \<le> 0x200A))"

definition trim :: "jsstring \<Rightarrow> jsstring" where
  "trim s = rev (dropWhile isWhiteSpace (rev (dropWhile isWhiteSpace s)))"

text \<open>
  \<^verbatim>\<open>typeof uid === "string" && uid.trim().length > 0 && typeof name === "string" &&
  name.trim().length > 0\<close>; the \<^verbatim>\<open>typeof\<close> tests hold by typing.
\<close>

definition isValidUserData :: "jsstring \<Rightarrow> jsstring \<Rightarrow> bool" where
  "isValidUserData uid name = (length (trim uid) > 0 \<and> length (trim name) > 0)"

definition isValidMessage :: "jsstring \<Rightarrow> bool" where
  "isValidMessage t = (length (trim t) > 0 \<and> length t \<le> 1000)"

subsection \<open>models/meeting.ts\<close>

text \<open>
  Several interfaces share field names (\<^verbatim>\<open>meetingId\<close>, \<^verbatim>\<open>uid\<close>, \<^verbatim>\<open>name\<close>,
  \<^verbatim>\<open>socketId\<close>, \<^verbatim>\<open>createdBy\<close>); a shared name is written with its record, as in
  \<open>joinMeetingData.uid\<close>. The first record is the payload of the \<^verbatim>\<open>join-meeting\<close> event
  of \<^verbatim>\<open>server.ts\<close>.
\<close>

record joinMeetingEvent =
  meetingId :: jsstring
  uid :: jsstring
  name :: jsstring

record joinMeetingData =
  meetingId :: jsstring
  uid :: jsstring
  name :: jsstring
  socketId :: jsstring

record meetingCreateData =
  createdBy :: jsstring
  creatorName :: jsstring

record participant =
  uid :: jsstring
  name :: jsstring
  socketId :: jsstring
  joinedAt :: date

text \<open>The fields \<^verbatim>\<open>id\<close> and \<^verbatim>\<open>text\<close> of a ChatMessage are \<open>msg_id\<close> and \<open>msg_text\<close> here.\<close>

record chatMessage =
  msg_id :: jsstring
  userId :: jsstring
  userName :: jsstring
  msg_text :: jsstring
  timestamp :: date

record meeting =
  meetingId :: jsstring
  createdBy :: jsstring
  createdAt :: date
  participants :: "participant list"
  messages :: "chatMessage list"
  summary :: "jsstring option"
  isActive :: bool
  maxParticipants :: nat

subsection \<open>services/meetingService.ts: state\<close>

text \<open>
  The results \<^verbatim>\<open>{success: false, error: ...}\<close> and the exceptions of the service:
  \<^item> \<open>NotFound\<close>: "Meeting not found";
  \<^item> \<open>Forbidden\<close>: "Only the host can end the meeting";
  \<^item> \<open>Inactive\<close>: "Meeting is no longer active";
  \<^item> \<open>Full n\<close>: "Meeting is full (max n participants)";
  \<^item> \<open>Failed\<close>: "Failed to join meeting", "Failed to end meeting" (the \<^verbatim>\<open>catch\<close> blocks);
  \<^item> \<open>StoreError\<close>: an exception of the document store, thrown again by \<^verbatim>\<open>addMessage\<close>.
\<close>

datatype error = NotFound | Forbidden | Inactive | Full nat | Failed | StoreError

text \<open>The calls made on \<^verbatim>\<open>db.collection(COLLECTIONS.MEETINGS).doc(id)\<close>, in order.\<close>

datatype dbCall = DocGet jsstring | DocSet jsstring | DocUpdate jsstring

text \<open>
  The state of the service: the module's map \<^verbatim>\<open>activeMeetings\<close> (the cache), the
  documents of the collection "meetings", the log of the calls made on the collection, and
  the summaries requested from \<^verbatim>\<open>generateMeetingSummary\<close> whose promise has not
  resolved yet (meeting identifier and transcript).

  A \<^verbatim>\<open>Meeting\<close> object is reached only through the cache entry of its identifier and
  through the local variable of the running operation, so the object is the value stored
  at that key, and a mutation of the object is an update of the entry. Each exported
  function runs to its end before the next one starts (no interleaving at an
  \<^verbatim>\<open>await\<close>). The document store answers every call; the one exception of the store
  in the model is that of \<^verbatim>\<open>update\<close> on a document that does not exist.
\<close>

record state =
  activeMeetings :: "jsstring \<rightharpoonup> meeting"
  docs :: "jsstring \<rightharpoonup> meeting"
  dbCalls :: "dbCall list"
  summaryJobs :: "(jsstring \<times> chatMessage list) list"

definition MAX_PARTICIPANTS :: nat where
  "MAX_PARTICIPANTS = 10"

definition init :: state where
  "init = \<lparr>activeMeetings = Map.empty, docs = Map.empty, dbCalls = [], summaryJobs = []\<rparr>"

text \<open>\<^verbatim>\<open>doc(k).get()\<close>: the document, if it exists.\<close>

definition docGet :: "state \<Rightarrow> jsstring \<Rightarrow> meeting option \<times> state" where
  "docGet s k = (docs s k, s\<lparr>dbCalls := dbCalls s @ [DocGet k]\<rparr>)"

text \<open>\<^verbatim>\<open>doc(k).set(d)\<close>: creates or replaces the document.\<close>

definition docSet :: "state \<Rightarrow> jsstring \<Rightarrow> meeting \<Rightarrow> state" where
  "docSet s k d = s\<lparr>docs := (docs s)(k \<mapsto> d), dbCalls := dbCalls s @ [DocSet k]\<rparr>"

text \<open>
  \<^verbatim>\<open>doc(k).update(fields)\<close>: writes the given fields of an existing document; it throws
  when there is no document (the result is then \<open>False\<close>).
\<close>

definition docUpdate :: "state \<Rightarrow> jsstring \<Rightarrow> (meeting \<Rightarrow> meeting) \<Rightarrow> bool \<times> state" where
  "docUpdate s k f =
     (let s1 = s\<lparr>dbCalls := dbCalls s @ [DocUpdate k]\<rparr>
      in case docs s k of
           None \<Rightarrow> (False, s1)
         | Some d \<Rightarrow> (True, s1\<lparr>docs := (docs s)(k \<mapsto> f d)\<rparr>))"

subsection \<open>services/meetingService.ts: operations\<close>

text \<open>
  \<^verbatim>\<open>getMeetingById\<close>: null for a malformed identifier, then the cache, then the store;
  a document read from the store is put into the cache. The conversions of the store's
  timestamps and the defaults for missing arrays are identities on a \<open>meeting\<close>.
\<close>

definition getMeetingById :: "state \<Rightarrow> jsstring \<Rightarrow> meeting option \<times> state" where
  "getMeetingById s mid =
     (if \<not> isValidMeetingId mid then (None, s)
      else case activeMeetings s mid of
             Some m \<Rightarrow> (Some m, s)
           | None \<Rightarrow>
               (case docGet s mid of
                  (None, s1) \<Rightarrow> (None, s1)
                | (Some d, s1) \<Rightarrow>
                    (Some d, s1\<lparr>activeMeetings := (activeMeetings s1)(mid \<mapsto> d)\<rparr>)))"

text \<open>
  The loop of \<^verbatim>\<open>createMeeting\<close> that draws identifiers until one is free. The draws
  of \<^verbatim>\<open>generateMeetingId\<close> are given as a list; when the list ends before a free
  identifier is found the loop has not returned, and the result is \<open>None\<close>.
\<close>

fun freshMeetingId :: "state \<Rightarrow> jsstring list \<Rightarrow> jsstring option \<times> state" where
  "freshMeetingId s [] = (None, s)"
| "freshMeetingId s (c # cs) =
     (case getMeetingById s c of
        (None, s1) \<Rightarrow> (Some c, s1)
      | (Some m, s1) \<Rightarrow> freshMeetingId s1 cs)"

text \<open>
  \<^verbatim>\<open>createMeeting\<close>; \<open>now\<close> is \<^verbatim>\<open>new Date()\<close> and \<open>stamp\<close> the store's
  \<^verbatim>\<open>serverTimestamp()\<close>.
\<close>

definition createMeeting ::
  "state \<Rightarrow> meetingCreateData \<Rightarrow> date \<Rightarrow> date \<Rightarrow> jsstring list \<Rightarrow> meeting option \<times> state" where
  "createMeeting s data now stamp draws =
     (case freshMeetingId s draws of
        (None, s1) \<Rightarrow> (None, s1)
      | (Some mid, s1) \<Rightarrow>
          (let m = \<lparr>meeting.meetingId = mid,
                    meeting.createdBy = meetingCreateData.createdBy data,
                    createdAt = now, participants = [], messages = [], summary = None,
                    isActive = True, maxParticipants = MAX_PARTICIPANTS\<rparr>;
               s2 = docSet s1 mid (m\<lparr>createdAt := stamp\<rparr>)
           in (Some m, s2\<lparr>activeMeetings := (activeMeetings s2)(mid \<mapsto> m)\<rparr>)))"

text \<open>
  The start of a summary: \<^verbatim>\<open>generateMeetingSummary(meeting.messages).then(...)\<close>, not
  awaited, only when there are messages.
\<close>

definition startSummary :: "state \<Rightarrow> jsstring \<Rightarrow> chatMessage list \<Rightarrow> state" where
  "startSummary s mid ms =
     (if length ms > 0 then s\<lparr>summaryJobs := summaryJobs s @ [(mid, ms)]\<rparr> else s)"

text \<open>
  The continuation of that promise: the summary text is written to the document; an
  exception of the update is caught and logged.
\<close>

definition summaryReady :: "state \<Rightarrow> jsstring \<Rightarrow> jsstring \<Rightarrow> state" where
  "summaryReady s mid summ = snd (docUpdate s mid (\<lambda>d. d\<lparr>summary := Some summ\<rparr>))"

text \<open>
  \<^verbatim>\<open>endMeeting\<close>. The assignment \<^verbatim>\<open>meeting.isActive = false\<close> changes an object that
  the next statement removes from the cache; the flag reaches the store through the update.
\<close>

definition endMeeting :: "state \<Rightarrow> jsstring \<Rightarrow> jsstring \<Rightarrow> (error + unit) \<times> state" where
  "endMeeting s mid u =
     (case getMeetingById s mid of
        (None, s1) \<Rightarrow> (Inl NotFound, s1)
      | (Some m, s1) \<Rightarrow>
          if meeting.createdBy m \<noteq> u then (Inl Forbidden, s1)
          else
            (let s2 = s1\<lparr>activeMeetings := (activeMeetings s1)(mid := None)\<rparr>;
                 s3 = startSummary s2 mid (messages m)
             in case docUpdate s3 mid (\<lambda>d. d\<lparr>isActive := False\<rparr>) of
                  (False, s4) \<Rightarrow> (Inl Failed, s4)
                | (True, s4) \<Rightarrow> (Inr (), s4)))"

text \<open>
  \<^verbatim>\<open>existingParticipant.socketId = data.socketId\<close> on the participant that
  \<^verbatim>\<open>find\<close> returns: the first one with the user identifier.
\<close>

fun setSocketId :: "jsstring \<Rightarrow> jsstring \<Rightarrow> participant list \<Rightarrow> participant list" where
  "setSocketId u sid [] = []"
| "setSocketId u sid (p # ps) =
     (if participant.uid p = u then p\<lparr>socketId := sid\<rparr> # ps else p # setSocketId u sid ps)"

text \<open>
  \<^verbatim>\<open>joinMeeting\<close>. The participant list of the cached object is changed before the
  store is written, so the change stays in the cache when the update throws.
\<close>

definition joinMeeting :: "state \<Rightarrow> joinMeetingData \<Rightarrow> date \<Rightarrow> (error + meeting) \<times> state" where
  "joinMeeting s data now =
     (let mid = joinMeetingData.meetingId data in
      case getMeetingById s mid of
        (None, s1) \<Rightarrow> (Inl NotFound, s1)
      | (Some m, s1) \<Rightarrow>
          if \<not> isActive m then (Inl Inactive, s1)
          else
            (case find (\<lambda>p. participant.uid p = joinMeetingData.uid data) (participants m) of
               None \<Rightarrow>
                 if length (participants m) \<ge> maxParticipants m
                 then (Inl (Full (maxParticipants m)), s1)
                 else
                   (let p = \<lparr>participant.uid = joinMeetingData.uid data,
                             participant.name = joinMeetingData.name data,
                             participant.socketId = joinMeetingData.socketId data,
                             joinedAt = now\<rparr>;
                        m1 = m\<lparr>participants := participants m @ [p]\<rparr>;
                        s2 = s1\<lparr>activeMeetings := (activeMeetings s1)(mid \<mapsto> m1)\<rparr>
                    in case docUpdate s2 mid (\<lambda>d. d\<lparr>participants := participants m1\<rparr>) of
                         (False, s3) \<Rightarrow> (Inl Failed, s3)
                       | (True, s3) \<Rightarrow>
                           (Inr m1, s3\<lparr>activeMeetings := (activeMeetings s3)(mid \<mapsto> m1)\<rparr>))
             | Some existingParticipant \<Rightarrow>
                 (let m1 = m\<lparr>participants :=
                             setSocketId (joinMeetingData.uid data)
                               (joinMeetingData.socketId data) (participants m)\<rparr>;
                      s2 = s1\<lparr>activeMeetings := (activeMeetings s1)(mid \<mapsto> m1)\<rparr>
                  in case docUpdate s2 mid (\<lambda>d. d\<lparr>participants := participants m1\<rparr>) of
                       (False, s3) \<Rightarrow> (Inl Failed, s3)
                     | (True, s3) \<Rightarrow>
                         (Inr m1, s3\<lparr>activeMeetings := (activeMeetings s3)(mid \<mapsto> m1)\<rparr>))))"

text \<open>
  \<^verbatim>\<open>leaveMeeting\<close>: nothing is returned, and an exception of the update is caught
  and logged. The filtered list is assigned to the cached object; when it is empty the
  object is marked inactive and removed from the cache.
\<close>

definition leaveMeeting :: "state \<Rightarrow> jsstring \<Rightarrow> jsstring \<Rightarrow> state" where
  "leaveMeeting s mid sid =
     (case getMeetingById s mid of
        (None, s1) \<Rightarrow> s1
      | (Some m, s1) \<Rightarrow>
          (let m1 = m\<lparr>participants := filter (\<lambda>p. participant.socketId p \<noteq> sid) (participants m)\<rparr>;
               s2 = s1\<lparr>activeMeetings := (activeMeetings s1)(mid \<mapsto> m1)\<rparr>;
               m2 = (if length (participants m1) = 0 then m1\<lparr>isActive := False\<rparr> else m1);
               s3 = (if length (participants m1) = 0
                     then startSummary (s2\<lparr>activeMeetings := (activeMeetings s2)(mid := None)\<rparr>)
                            mid (messages m2)
                     else s2)
           in snd (docUpdate s3 mid
                     (\<lambda>d. d\<lparr>participants := participants m2, isActive := isActive m2\<rparr>))))"

text \<open>
  \<^verbatim>\<open>addMessage\<close>: throws "Meeting not found" (\<open>NotFound\<close>), or the exception of the
  update.
\<close>

definition addMessage :: "state \<Rightarrow> jsstring \<Rightarrow> chatMessage \<Rightarrow> (error + unit) \<times> state" where
  "addMessage s mid message =
     (case getMeetingById s mid of
        (None, s1) \<Rightarrow> (Inl NotFound, s1)
      | (Some m, s1) \<Rightarrow>
          (let m1 = m\<lparr>messages := messages m @ [message]\<rparr>;
               s2 = s1\<lparr>activeMeetings := (activeMeetings s1)(mid \<mapsto> m1)\<rparr>
           in case docUpdate s2 mid (\<lambda>d. d\<lparr>messages := messages m1\<rparr>) of
                (False, s3) \<Rightarrow> (Inl StoreError, s3)
              | (True, s3) \<Rightarrow> (Inr (), s3\<lparr>activeMeetings := (activeMeetings s3)(mid \<mapsto> m1)\<rparr>)))"

text \<open>\<^verbatim>\<open>getParticipants\<close>: the participants of the meeting, or the empty list.\<close>

definition getParticipants :: "state \<Rightarrow> jsstring \<Rightarrow> participant list \<times> state" where
  "getParticipants s mid =
     (case getMeetingById s mid of
        (None, s1) \<Rightarrow> ([], s1)
      | (Some m, s1) \<Rightarrow> (participants m, s1))"

subsection \<open>server.ts: the join-meeting handler\<close>

text \<open>
  A connection: \<^verbatim>\<open>socket.id\<close>, the rooms joined with \<^verbatim>\<open>socket.join\<close>, and
  \<^verbatim>\<open>socket.data\<close>, whose fields \<^verbatim>\<open>meetingId\<close>, \<^verbatim>\<open>uid\<close> and \<^verbatim>\<open>name\<close> are
  undefined (\<open>None\<close>) until a join succeeds and are then set together.
\<close>

record socket =
  sock_id :: jsstring
  sock_rooms :: "jsstring set"
  sock_data :: "joinMeetingEvent option"

text \<open>
  The events sent by the handler; \<open>JoinError e\<close> carries \<^verbatim>\<open>{message: result.error}\<close>
  and \<open>ErrorEvent msg\<close> is the event named \<^verbatim>\<open>error\<close> with \<^verbatim>\<open>{message: msg}\<close>.
\<close>

datatype event =
    JoinedMeeting jsstring "participant list" "chatMessage list" jsstring
  | UserJoined jsstring jsstring nat
  | JoinError error
  | ErrorEvent string

text \<open>
  \<open>ToSender\<close> is \<^verbatim>\<open>socket.emit\<close> (the connection itself), \<open>ToRestOfRoom r\<close> is
  \<^verbatim>\<open>socket.to(r).emit\<close> (every connection of room \<open>r\<close> but the sender).
\<close>

datatype recipient = ToSender | ToRestOfRoom jsstring

text \<open>
  The handler of \<^verbatim>\<open>join-meeting\<close>. \<^verbatim>\<open>joinMeeting\<close> catches its own exceptions and
  the payload is well-typed, so the handler's \<^verbatim>\<open>catch\<close> block (which sends
  \<^verbatim>\<open>error\<close> with "Failed to join meeting") is not reached in the model.
\<close>

definition onJoinMeeting ::
  "state \<Rightarrow> socket \<Rightarrow> joinMeetingEvent \<Rightarrow> date \<Rightarrow> (recipient \<times> event) list \<times> socket \<times> state" where
  "onJoinMeeting s sock data now =
     (let mid = joinMeetingEvent.meetingId data;
          u = joinMeetingEvent.uid data;
          n = joinMeetingEvent.name data
      in if \<not> isValidMeetingId mid \<or> \<not> isValidUserData u n
         then ([(ToSender, ErrorEvent ''Invalid meeting data'')], sock, s)
         else
           (case joinMeeting s
                   \<lparr>joinMeetingData.meetingId = mid, joinMeetingData.uid = u,
                    joinMeetingData.name = n, joinMeetingData.socketId = sock_id sock\<rparr>
                   now of
              (Inl e, s1) \<Rightarrow> ([(ToSender, JoinError e)], sock, s1)
            | (Inr m, s1) \<Rightarrow>
                ([(ToSender, JoinedMeeting mid (participants m) (messages m) (meeting.createdBy m)),
                  (ToRestOfRoom mid, UserJoined u n (length (participants m)))],
                 sock\<lparr>sock_rooms := insert mid (sock_rooms sock), sock_data := Some data\<rparr>,
                 s1)))"

text \<open>The events that the handler sends to the connection itself.\<close>

definition repliesToSender :: "(recipient \<times> event) list \<Rightarrow> event list" where
  "repliesToSender evs = map snd (filter (\<lambda>(r, e). r = ToSender) evs)"

subsection \<open>Runs of the service\<close>

text \<open>
  One call of an exported function, or the arrival of a summary; a run is a sequence of
  them, each on the state the previous one left.
\<close>

datatype op =
    OpCreate meetingCreateData date date "jsstring list"
  | OpGet jsstring
  | OpEnd jsstring jsstring
  | OpJoin joinMeetingData date
  | OpLeave jsstring jsstring
  | OpAddMessage jsstring chatMessage
  | OpGetParticipants jsstring
  | OpSummaryReady jsstring jsstring

fun step :: "state \<Rightarrow> op \<Rightarrow> state" where
  "step s (OpCreate data now stamp draws) = snd (createMeeting s data now stamp draws)"
| "step s (OpGet mid) = snd (getMeetingById s mid)"
| "step s (OpEnd mid u) = snd (endMeeting s mid u)"
| "step s (OpJoin data now) = snd (joinMeeting s data now)"
| "step s (OpLeave mid sid) = leaveMeeting s mid sid"
| "step s (OpAddMessage mid message) = snd (addMessage s mid message)"
| "step s (OpGetParticipants mid) = snd (getParticipants s mid)"
| "step s (OpSummaryReady mid summ) = summaryReady s mid summ"

definition run :: "state \<Rightarrow> op list \<Rightarrow> state" where
  "run s ops = foldl step s ops"

text \<open>
  A cached meeting and its document agree on every field but \<^verbatim>\<open>createdAt\<close> (the
  clock of the process against the clock of the store) and \<^verbatim>\<open>summary\<close> (written to
  the document only).
\<close>

definition mirrors :: "meeting \<Rightarrow> meeting \<Rightarrow> bool" where
  "mirrors d m = (d\<lparr>createdAt := createdAt m, summary := summary m\<rparr> = m)"

text \<open>
  The invariant of the service: every document has the limit \<open>MAX_PARTICIPANTS\<close>, and
  every cached meeting has a document that it mirrors.
\<close>

definition inv :: "state \<Rightarrow> bool" where
  "inv s =
     ((\<forall>k d. docs s k = Some d \<longrightarrow> maxParticipants d = MAX_PARTICIPANTS) \<and>
      (\<forall>k m. activeMeetings s k = Some m \<longrightarrow> (\<exists>d. docs s k = Some d \<and> mirrors d m)))"

text \<open>
  A meeting that has ended: the identifier is well-formed, the document exists and is
  inactive, and so is the cached copy when there is one.
\<close>

definition ended :: "state \<Rightarrow> jsstring \<Rightarrow> bool" where
  "ended s mid =
     (isValidMeetingId mid \<and>
      (\<exists>d. docs s mid = Some d \<and> \<not> isActive d) \<and>
      (\<forall>m. activeMeetings s mid = Some m \<longrightarrow> \<not> isActive m))"

text \<open>
  The meeting that the service holds under an identifier: the cached object, else the
  document; it is what \<open>getMeetingById\<close> returns (lemma \<open>getMeetingById_lookup\<close>).
\<close>

definition lookup :: "state \<Rightarrow> jsstring \<Rightarrow> meeting option" where
  "lookup s mid =
     (if isValidMeetingId mid
      then (case activeMeetings s mid of Some m \<Rightarrow> Some m | None \<Rightarrow> docs s mid)
      else None)"



subsection \<open>Example data\<close>

definition room :: jsstring where
  "room = js ''123456''"

definition guest :: "16 word \<Rightarrow> participant" where
  "guest c = \<lparr>participant.uid = [c], participant.name = [c], participant.socketId = [c],
              joinedAt = 0\<rparr>"

definition alice :: participant where
  "alice = \<lparr>participant.uid = js ''alice'', participant.name = js ''Alice'',
            participant.socketId = js ''sockA'', joinedAt = 1\<rparr>"

definition bob :: participant where
  "bob = \<lparr>participant.uid = js ''bob'', participant.name = js ''Bob'',
          participant.socketId = js ''sockB'', joinedAt = 2\<rparr>"

definition hello :: chatMessage where
  "hello = \<lparr>msg_id = js ''3-alice'', userId = js ''alice'', userName = js ''Alice'',
            msg_text = js ''hi'', timestamp = 3\<rparr>"

text \<open>A meeting created by alice, with alice as its only participant.\<close>

definition meetingA :: meeting where
  "meetingA = \<lparr>meeting.meetingId = room, meeting.createdBy = js ''alice'', createdAt = 0,
               participants = [alice], messages = [], summary = None, isActive = True,
               maxParticipants = MAX_PARTICIPANTS\<rparr>"

text \<open>The state in which a meeting \<open>m\<close> is cached under \<open>room\<close> and stored.\<close>

definition cached :: "meeting \<Rightarrow> state" where
  "cached m = \<lparr>activeMeetings = [room \<mapsto> m], docs = [room \<mapsto> m], dbCalls = [],
               summaryJobs = []\<rparr>"

text \<open>The state in which a meeting \<open>m\<close> is stored under \<open>room\<close> and not cached.\<close>

definition stored :: "meeting \<Rightarrow> state" where
  "stored m = \<lparr>activeMeetings = Map.empty, docs = [room \<mapsto> m], dbCalls = [],
               summaryJobs = []\<rparr>"

text \<open>The meeting with ten participants, and with alice and bob.\<close>

definition meetingFull :: meeting where
  "meetingFull = meetingA\<lparr>participants := map guest (js ''0123456789'')\<rparr>"

definition meetingAB :: meeting where
  "meetingAB = meetingA\<lparr>participants := [alice, bob]\<rparr>"

text \<open>The meeting of alice and bob after alice, its creator, has ended it.\<close>

definition meetingOver :: meeting where
  "meetingOver = meetingAB\<lparr>isActive := False\<rparr>"

text \<open>
  A connection that has not joined a meeting, and the payload with which bob asks to join
  the meeting \<open>room\<close>.
\<close>

definition sockB :: socket where
  "sockB = \<lparr>sock_id = js ''sockB'', sock_rooms = {}, sock_data = None\<rparr>"

definition joinB :: joinMeetingData where
  "joinB = \<lparr>joinMeetingData.meetingId = room, joinMeetingData.uid = js ''bob'',
            joinMeetingData.name = js ''Bob'', joinMeetingData.socketId = js ''sockB''\<rparr>"

definition joinA :: joinMeetingData where
  "joinA = \<lparr>joinMeetingData.meetingId = room, joinMeetingData.uid = js ''alice'',
            joinMeetingData.name = js ''Alice'', joinMeetingData.socketId = js ''sockA''\<rparr>"

text \<open>
  The run in which alice creates the meeting \<open>room\<close>, alice and bob join it, and alice
  ends it.
\<close>

definition overRun :: "op list" where
  "overRun =
     [OpCreate \<lparr>meetingCreateData.createdBy = js ''alice'', creatorName = js ''Alice''\<rparr> 0 0 [room],
      OpJoin joinA 1, OpJoin joinB 2, OpEnd room (js ''alice'')]"

definition overState :: state where
  "overState = run init overRun"

section \<open>Properties\<close>

subsection \<open>Validation\<close>

lemma matchDigits_Some_iff:
  "matchDigits n s = Some r \<longleftrightarrow> (n \<le> length s \<and> list_all isDigit (take n s) \<and> r = drop n s)"
proof (induction n s rule: matchDigits.induct)
  case (1 s)
  show ?case by auto
next
  case (2 n)
  show ?case by simp
next
  case (3 n c s)
  then show ?case by (cases "isDigit c") auto
qed

lemma all_dropWhile_iff: "(\<forall>x\<in>set (dropWhile P s). P x) \<longleftrightarrow> (\<forall>x\<in>set s. P x)"
  by (induction s) auto

lemma trim_empty_iff: "trim s = [] \<longleftrightarrow> list_all isWhiteSpace s"
  by (simp add: trim_def dropWhile_eq_Nil_conv list_all_iff all_dropWhile_iff)

lemma isValidMeetingId_conv:
  "isValidMeetingId s \<longleftrightarrow> (length s = 6 \<and> list_all isDigit s)"
proof -
  have "isValidMeetingId s \<longleftrightarrow> matchDigits 6 s = Some []"
    by (auto simp: isValidMeetingId_def split: option.splits)
  also have "\<dots> \<longleftrightarrow> (6 \<le> length s \<and> list_all isDigit (take 6 s) \<and> drop 6 s = [])"
    by (auto simp: matchDigits_Some_iff)
  also have "\<dots> \<longleftrightarrow> (length s = 6 \<and> list_all isDigit s)"
    by auto
  finally show ?thesis .
qed

text \<open>
  C7. \<open>isValidMeetingId\<close> returns true for a string exactly when the string consists of
  exactly six ASCII digits: a string of another length (the empty string too) and a string
  with a code unit that is not a digit are rejected.
\<close>

theorem isValidMeetingId_six_digits:
  "isValidMeetingId s \<longleftrightarrow> (length s = 6 \<and> list_all isDigit s)"
  by (rule isValidMeetingId_conv)

theorem isValidMeetingId_six_digits_witness:
  "isValidMeetingId (js ''123456'') \<and> \<not> isValidMeetingId (js ''12345'') \<and>
   \<not> isValidMeetingId (js ''1234567'') \<and> \<not> isValidMeetingId (js ''12a456'') \<and>
   \<not> isValidMeetingId []"
  using isValidMeetingId_six_digits[of "js ''123456''"]
    isValidMeetingId_six_digits[of "js ''12345''"]
    isValidMeetingId_six_digits[of "js ''1234567''"]
    isValidMeetingId_six_digits[of "js ''12a456''"]
    isValidMeetingId_six_digits[of "[]"]
  by (simp add: js_def isDigit_def)

text \<open>
  C8. \<open>isValidMessage\<close> accepts a message of exactly 1000 code units that has a code unit
  other than whitespace, rejects every message of 1001 or more code units, and rejects
  every message that consists of whitespace only.
\<close>

theorem isValidMessage_bounds:
  "(length t = 1000 \<and> \<not> list_all isWhiteSpace t \<longrightarrow> isValidMessage t) \<and>
   (1001 \<le> length t \<longrightarrow> \<not> isValidMessage t) \<and>
   (list_all isWhiteSpace t \<longrightarrow> \<not> isValidMessage t)"
  by (auto simp: isValidMessage_def trim_empty_iff)

theorem isValidMessage_bounds_witness:
  "isValidMessage (replicate 1000 0x61) \<and> \<not> isValidMessage (replicate 1001 0x61) \<and>
   \<not> isValidMessage (js '' '')"
  using isValidMessage_bounds[of "replicate 1000 0x61"]
    isValidMessage_bounds[of "replicate 1001 0x61"]
    isValidMessage_bounds[of "js '' ''"]
  by (simp add: js_def isWhiteSpace_def list_all_iff)

subsection \<open>Reading a meeting\<close>

lemma getMeetingById_invalid:
  "\<not> isValidMeetingId mid \<Longrightarrow> getMeetingById s mid = (None, s)"
  by (simp add: getMeetingById_def)

lemma getMeetingById_None:
  assumes "getMeetingById s mid = (None, s1)"
  shows "docs s1 = docs s" and "activeMeetings s1 = activeMeetings s"
    and "summaryJobs s1 = summaryJobs s"
    and "\<not> isValidMeetingId mid \<or> (activeMeetings s mid = None \<and> docs s mid = None)"
  using assms
  by (auto simp: getMeetingById_def docGet_def split: if_splits option.splits)

lemma getMeetingById_Some:
  assumes "getMeetingById s mid = (Some m, s1)"
  shows "isValidMeetingId mid" and "docs s1 = docs s"
    and "activeMeetings s1 = (activeMeetings s)(mid \<mapsto> m)"
    and "summaryJobs s1 = summaryJobs s"
    and "activeMeetings s mid = Some m \<or> (activeMeetings s mid = None \<and> docs s mid = Some m)"
  using assms
  by (auto simp: getMeetingById_def docGet_def split: if_splits option.splits)

lemma mirrors_refl: "mirrors d d"
  by (simp add: mirrors_def)



subsection \<open>The invariant holds in every run\<close>

lemma mirrors_iff:
  "mirrors d m \<longleftrightarrow>
     (meeting.meetingId d = meeting.meetingId m \<and> meeting.createdBy d = meeting.createdBy m \<and>
      participants d = participants m \<and> messages d = messages m \<and>
      isActive d = isActive m \<and> maxParticipants d = maxParticipants m)"
  by (cases d, cases m) (auto simp: mirrors_def)

lemma docUpdate_Some:
  "docs s k = Some d \<Longrightarrow>
     docUpdate s k f = (True, s\<lparr>dbCalls := dbCalls s @ [DocUpdate k], docs := (docs s)(k \<mapsto> f d)\<rparr>)"
  by (simp add: docUpdate_def)

lemma docUpdate_None:
  "docs s k = None \<Longrightarrow> docUpdate s k f = (False, s\<lparr>dbCalls := dbCalls s @ [DocUpdate k]\<rparr>)"
  by (simp add: docUpdate_def)

lemma inv_startSummary [simp]: "inv (startSummary s mid ms) = inv s"
  by (simp add: startSummary_def inv_def)

lemma startSummary_fields [simp]:
  "docs (startSummary s mid ms) = docs s"
  "activeMeetings (startSummary s mid ms) = activeMeetings s"
  "dbCalls (startSummary s mid ms) = dbCalls s"
  by (simp_all add: startSummary_def)













subsection \<open>The meeting held under an identifier\<close>

lemma getMeetingById_lookup: "fst (getMeetingById s mid) = lookup s mid"
  by (simp add: getMeetingById_def lookup_def docGet_def split: option.splits)

lemma lookup_getMeetingById: "lookup (snd (getMeetingById s mid)) k = lookup s k"
  by (simp add: getMeetingById_def lookup_def docGet_def split: option.splits)

lemma docs_getMeetingById: "docs (snd (getMeetingById s mid)) = docs s"
  by (simp add: getMeetingById_def docGet_def split: option.splits)

lemma lookup_Some_doc:
  assumes "inv s" and "lookup s mid = Some m"
  shows "\<exists>d. docs s mid = Some d \<and> mirrors d m"
  using assms
  by (auto simp: lookup_def inv_def mirrors_refl split: if_splits option.splits)

lemma getMeetingById_eq:
  "\<exists>s1. getMeetingById s mid = (lookup s mid, s1) \<and> docs s1 = docs s \<and>
        (\<forall>k. lookup s1 k = lookup s k) \<and>
        activeMeetings s1 =
          (case lookup s mid of None \<Rightarrow> activeMeetings s
           | Some m \<Rightarrow> (activeMeetings s)(mid \<mapsto> m))"
proof -
  obtain g s1 where g: "getMeetingById s mid = (g, s1)" by (cases "getMeetingById s mid")
  have 1: "g = lookup s mid" using getMeetingById_lookup[of s mid] g by simp
  have 2: "docs s1 = docs s" using docs_getMeetingById[of s mid] g by simp
  have 3: "\<forall>k. lookup s1 k = lookup s k" using lookup_getMeetingById[of s mid] g by simp
  have 4: "activeMeetings s1 =
          (case lookup s mid of None \<Rightarrow> activeMeetings s
           | Some m \<Rightarrow> (activeMeetings s)(mid \<mapsto> m))"
  proof (cases g)
    case None
    with g 1 getMeetingById_None(2)[of s mid s1] show ?thesis by simp
  next
    case (Some m)
    with 1 have "lookup s mid = Some m" by simp
    with g Some getMeetingById_Some(3)[of s mid m s1] show ?thesis by simp
  qed
  from g 1 2 3 4 show ?thesis by blast
qed

subsection \<open>The example data\<close>

lemma valid_room: "isValidMeetingId room"
  by (simp add: isValidMeetingId_conv room_def js_def isDigit_def)

lemma inv_cached: "maxParticipants m = MAX_PARTICIPANTS \<Longrightarrow> inv (cached m)"
  by (simp add: inv_def cached_def mirrors_refl)

lemma inv_stored: "maxParticipants m = MAX_PARTICIPANTS \<Longrightarrow> inv (stored m)"
  by (simp add: inv_def stored_def)

lemma lookup_cached: "lookup (cached m) room = Some m"
  by (simp add: lookup_def cached_def valid_room)

lemma lookup_stored: "lookup (stored m) room = Some m"
  by (simp add: lookup_def stored_def valid_room)

text \<open>The run \<open>overRun\<close> ends in a state where the meeting is stored, inactive, and not cached.\<close>

lemma overState_eq:
  "overState = (stored meetingOver)
     \<lparr>dbCalls := [DocGet room, DocSet room, DocUpdate room, DocUpdate room, DocUpdate room]\<rparr>"
  by (simp add: overState_def overRun_def run_def init_def createMeeting_def joinMeeting_def
      endMeeting_def getMeetingById_def docGet_def docSet_def docUpdate_def startSummary_def
      Let_def valid_room joinA_def joinB_def stored_def meetingOver_def meetingAB_def
      meetingA_def alice_def bob_def MAX_PARTICIPANTS_def js_def)



subsection \<open>Ending a meeting\<close>

text \<open>
  C5. For every call of \<open>endMeeting\<close> in a state that satisfies the invariant: when the
  meeting is absent the result is \<open>NotFound\<close>; when the meeting exists and the requester is
  not its creator the result is \<open>Forbidden\<close>, and the documents and the meeting held under
  every identifier are unchanged; otherwise the call succeeds, the cache entry is removed,
  the document is the old one with \<open>isActive\<close> false, and the last call on the store is
  the update of that document.
\<close>

theorem endMeeting_contract:
  assumes "inv s" and "endMeeting s mid u = (r, s')"
  shows "(lookup s mid = None \<longrightarrow> r = Inl NotFound) \<and>
         (\<forall>m. lookup s mid = Some m \<and> meeting.createdBy m \<noteq> u \<longrightarrow>
              r = Inl Forbidden \<and> docs s' = docs s \<and> (\<forall>k. lookup s' k = lookup s k)) \<and>
         (\<forall>m. lookup s mid = Some m \<and> meeting.createdBy m = u \<longrightarrow>
              r = Inr () \<and>
              activeMeetings s' = (activeMeetings s)(mid := None) \<and>
              (\<exists>d. docs s mid = Some d \<and> docs s' = (docs s)(mid \<mapsto> d\<lparr>isActive := False\<rparr>)) \<and>
              last (dbCalls s') = DocUpdate mid)"
proof -
  obtain s1 where g: "getMeetingById s mid = (lookup s mid, s1)"
    and d1: "docs s1 = docs s" and l1: "\<forall>k. lookup s1 k = lookup s k"
    and c1: "activeMeetings s1 =
          (case lookup s mid of None \<Rightarrow> activeMeetings s
           | Some m \<Rightarrow> (activeMeetings s)(mid \<mapsto> m))"
    using getMeetingById_eq[of s mid] by blast
  show ?thesis
  proof (cases "lookup s mid")
    case None
    with g assms(2) show ?thesis by (simp add: endMeeting_def)
  next
    case (Some m)
    from lookup_Some_doc[OF assms(1) Some] obtain d where d: "docs s mid = Some d" by blast
    show ?thesis
    proof (cases "meeting.createdBy m = u")
      case False
      with g Some assms(2) d1 l1 show ?thesis by (simp add: endMeeting_def)
    next
      case True
      with g Some assms(2) d d1 c1 show ?thesis
        by (auto simp: endMeeting_def Let_def docUpdate_Some[where d=d])
    qed
  qed
qed

theorem endMeeting_contract_witness:
  "inv (cached meetingA) \<and>
   fst (endMeeting (cached meetingA) (js ''999999'') (js ''alice'')) = Inl NotFound \<and>
   fst (endMeeting (cached meetingA) room (js ''bob'')) = Inl Forbidden \<and>
   docs (snd (endMeeting (cached meetingA) room (js ''bob''))) = docs (cached meetingA) \<and>
   fst (endMeeting (cached meetingA) room (js ''alice'')) = Inr () \<and>
   activeMeetings (snd (endMeeting (cached meetingA) room (js ''alice''))) room = None \<and>
   docs (snd (endMeeting (cached meetingA) room (js ''alice''))) room
     = Some (meetingA\<lparr>isActive := False\<rparr>)"
proof -
  have i: "inv (cached meetingA)" by (simp add: inv_cached meetingA_def)
  have l: "lookup (cached meetingA) room = Some meetingA" by (rule lookup_cached)
  have n: "lookup (cached meetingA) (js ''999999'') = None"
    by (simp add: lookup_def cached_def room_def js_def)
  have c: "meeting.createdBy meetingA = js ''alice''" "js ''alice'' \<noteq> js ''bob''"
    by (simp_all add: meetingA_def js_def)
  have dA: "docs (cached meetingA) room = Some meetingA" by (simp add: cached_def)
  note t = endMeeting_contract[OF i surjective_pairing]
  from t[of "js ''999999''" "js ''alice''"] n
  have 1: "fst (endMeeting (cached meetingA) (js ''999999'') (js ''alice'')) = Inl NotFound"
    by simp
  from t[of room "js ''bob''"] l c
  have 2: "fst (endMeeting (cached meetingA) room (js ''bob'')) = Inl Forbidden \<and>
    docs (snd (endMeeting (cached meetingA) room (js ''bob''))) = docs (cached meetingA)"
    by simp
  from t[of room "js ''alice''"] l c dA
  have 3: "fst (endMeeting (cached meetingA) room (js ''alice'')) = Inr () \<and>
   activeMeetings (snd (endMeeting (cached meetingA) room (js ''alice''))) room = None \<and>
   docs (snd (endMeeting (cached meetingA) room (js ''alice''))) room
     = Some (meetingA\<lparr>isActive := False\<rparr>)"
    by simp
  from i 1 2 3 show ?thesis by simp
qed

subsection \<open>Malformed identifiers\<close>

text \<open>
  C9. For every identifier that is not exactly six digits, \<open>getMeetingById\<close> returns null
  and the state is the one it was called in: no call on the store is logged and the cache
  is not changed.
\<close>

theorem getMeetingById_malformed:
  "\<not> (length mid = 6 \<and> list_all isDigit mid) \<Longrightarrow> getMeetingById s mid = (None, s)"
  by (simp add: getMeetingById_invalid isValidMeetingId_conv)

theorem getMeetingById_malformed_witness:
  "\<not> (length (js ''12a456'') = 6 \<and> list_all isDigit (js ''12a456'')) \<and>
   getMeetingById (stored meetingA) (js ''12a456'') = (None, stored meetingA) \<and>
   getMeetingById (stored meetingA) (js ''1234567'') = (None, stored meetingA)"
proof -
  have 1: "\<not> (length (js ''12a456'') = 6 \<and> list_all isDigit (js ''12a456''))"
    by (simp add: js_def isDigit_def)
  have 2: "\<not> (length (js ''1234567'') = 6 \<and> list_all isDigit (js ''1234567''))"
    by (simp add: js_def)
  from 1 getMeetingById_malformed[OF 1] getMeetingById_malformed[OF 2] show ?thesis by simp
qed

subsection \<open>Joining a meeting\<close>

lemma find_setSocketId:
  "find (\<lambda>p. participant.uid p = u) ps = Some p \<Longrightarrow>
     \<exists>i<length ps. ps ! i = p \<and> participant.uid p = u \<and>
       setSocketId u sid ps = ps[i := p\<lparr>participant.socketId := sid\<rparr>]"
proof (induction ps)
  case Nil
  then show ?case by simp
next
  case (Cons q qs)
  show ?case
  proof (cases "participant.uid q = u")
    case True
    with Cons.prems have "q = p" by simp
    with True have "(q # qs) ! 0 = p \<and> participant.uid p = u \<and>
      setSocketId u sid (q # qs) = (q # qs)[0 := p\<lparr>participant.socketId := sid\<rparr>]"
      by simp
    then show ?thesis by blast
  next
    case False
    with Cons obtain i where "i < length qs" "qs ! i = p" "participant.uid p = u"
      "setSocketId u sid qs = qs[i := p\<lparr>participant.socketId := sid\<rparr>]"
      by auto
    with False have "Suc i < length (q # qs) \<and> (q # qs) ! Suc i = p \<and> participant.uid p = u \<and>
      setSocketId u sid (q # qs) = (q # qs)[Suc i := p\<lparr>participant.socketId := sid\<rparr>]"
      by simp
    then show ?thesis by blast
  qed
qed

lemma find_uid_None: "find (\<lambda>p. participant.uid p = u) ps = None \<longleftrightarrow> u \<notin> participant.uid ` set ps"
  by (auto simp: find_None_iff)

lemma lookup_maxParticipants:
  assumes "inv s" and "lookup s mid = Some m"
  shows "maxParticipants m = MAX_PARTICIPANTS"
proof -
  from lookup_Some_doc[OF assms] obtain d where "docs s mid = Some d" "mirrors d m" by blast
  with assms(1) show ?thesis by (auto simp: inv_def mirrors_iff)
qed

text \<open>
  C3. In a state that satisfies the invariant, for an active meeting: when it holds 10
  participants and the joining user is not among them, \<open>joinMeeting\<close> fails with \<open>Full\<close>,
  and the documents and the meeting held under every identifier are unchanged; when the
  joining user is among the participants, \<open>joinMeeting\<close> succeeds and the participant list
  of the returned meeting, of the cache and of the document is the old list with the
  \<^verbatim>\<open>socketId\<close> of one entry, an entry of that user, set to the new value.
\<close>

theorem joinMeeting_full_and_rejoin:
  assumes "inv s" and "lookup s (joinMeetingData.meetingId data) = Some m" and "isActive m"
    and "joinMeeting s data now = (r, s')"
  shows "(length (participants m) = 10 \<and>
          joinMeetingData.uid data \<notin> participant.uid ` set (participants m) \<longrightarrow>
            r = Inl (Full 10) \<and> docs s' = docs s \<and> (\<forall>k. lookup s' k = lookup s k)) \<and>
         (joinMeetingData.uid data \<in> participant.uid ` set (participants m) \<longrightarrow>
            (\<exists>i<length (participants m).
               participant.uid (participants m ! i) = joinMeetingData.uid data \<and>
               (\<exists>ps. ps = (participants m)
                           [i := (participants m ! i)
                                   \<lparr>participant.socketId := joinMeetingData.socketId data\<rparr>] \<and>
                     r = Inr (m\<lparr>participants := ps\<rparr>) \<and>
                     lookup s' (joinMeetingData.meetingId data) = Some (m\<lparr>participants := ps\<rparr>) \<and>
                     (\<exists>d. docs s (joinMeetingData.meetingId data) = Some d \<and>
                          docs s' = (docs s)(joinMeetingData.meetingId data
                                              \<mapsto> d\<lparr>participants := ps\<rparr>)))))"
proof -
  let ?mid = "joinMeetingData.meetingId data"
  let ?u = "joinMeetingData.uid data"
  obtain s1 where g: "getMeetingById s ?mid = (Some m, s1)"
    and d1: "docs s1 = docs s" and l1: "\<forall>k. lookup s1 k = lookup s k"
    and c1: "activeMeetings s1 = (activeMeetings s)(?mid \<mapsto> m)"
    using getMeetingById_eq[of s ?mid] assms(2) by auto
  from lookup_Some_doc[OF assms(1,2)] obtain d where d: "docs s ?mid = Some d" by blast
  have mx: "maxParticipants m = 10"
    using lookup_maxParticipants[OF assms(1,2)] by (simp add: MAX_PARTICIPANTS_def)
  have v: "isValidMeetingId ?mid" using assms(2) by (simp add: lookup_def split: if_splits)
  have full: "r = Inl (Full 10) \<and> docs s' = docs s \<and> (\<forall>k. lookup s' k = lookup s k)"
    if "length (participants m) = 10" and "?u \<notin> participant.uid ` set (participants m)"
  proof -
    from that(2) have "find (\<lambda>p. participant.uid p = ?u) (participants m) = None"
      by (simp add: find_uid_None)
    with g assms(3,4) that(1) mx d1 l1 show ?thesis
      by (auto simp: joinMeeting_def Let_def)
  qed
  have rejoin: "\<exists>i<length (participants m).
               participant.uid (participants m ! i) = ?u \<and>
               (\<exists>ps. ps = (participants m)
                           [i := (participants m ! i)\<lparr>participant.socketId := joinMeetingData.socketId data\<rparr>] \<and>
                     r = Inr (m\<lparr>participants := ps\<rparr>) \<and>
                     lookup s' ?mid = Some (m\<lparr>participants := ps\<rparr>) \<and>
                     (\<exists>d. docs s ?mid = Some d \<and>
                          docs s' = (docs s)(?mid \<mapsto> d\<lparr>participants := ps\<rparr>)))"
    if "?u \<in> participant.uid ` set (participants m)"
  proof -
    from that obtain p where f: "find (\<lambda>p. participant.uid p = ?u) (participants m) = Some p"
      using find_uid_None[of ?u "participants m"] by (cases "find (\<lambda>p. participant.uid p = ?u) (participants m)") auto
    from find_setSocketId[OF f, of "joinMeetingData.socketId data"]
    obtain i where i: "i < length (participants m)" "participants m ! i = p"
      "participant.uid p = ?u"
      "setSocketId ?u (joinMeetingData.socketId data) (participants m)
         = (participants m)[i := p\<lparr>participant.socketId := joinMeetingData.socketId data\<rparr>]"
      by blast
    let ?ps = "(participants m)[i := (participants m ! i)\<lparr>participant.socketId := joinMeetingData.socketId data\<rparr>]"
    from g assms(3,4) f i d d1 c1 v
    have "r = Inr (m\<lparr>participants := ?ps\<rparr>) \<and>
          lookup s' ?mid = Some (m\<lparr>participants := ?ps\<rparr>) \<and>
          docs s' = (docs s)(?mid \<mapsto> d\<lparr>participants := ?ps\<rparr>)"
      by (auto simp: joinMeeting_def Let_def docUpdate_Some[where d=d] lookup_def)
    with i d show ?thesis by auto
  qed
  from full rejoin show ?thesis by blast
qed

theorem joinMeeting_full_and_rejoin_witness:
  "inv (cached meetingFull) \<and> isActive meetingFull \<and> length (participants meetingFull) = 10 \<and>
   fst (joinMeeting (cached meetingFull)
          \<lparr>joinMeetingData.meetingId = room, joinMeetingData.uid = js ''zed'',
           joinMeetingData.name = js ''Zed'', joinMeetingData.socketId = js ''sockZ''\<rparr> 5)
     = Inl (Full 10) \<and>
   inv (cached meetingAB) \<and>
   fst (joinMeeting (cached meetingAB)
          \<lparr>joinMeetingData.meetingId = room, joinMeetingData.uid = js ''bob'',
           joinMeetingData.name = js ''Bob'', joinMeetingData.socketId = js ''sockB2''\<rparr> 5)
     = Inr (meetingAB\<lparr>participants := [alice, bob\<lparr>participant.socketId := js ''sockB2''\<rparr>]\<rparr>)"
proof -
  let ?z = "\<lparr>joinMeetingData.meetingId = room, joinMeetingData.uid = js ''zed'',
           joinMeetingData.name = js ''Zed'', joinMeetingData.socketId = js ''sockZ''\<rparr>"
  let ?b = "\<lparr>joinMeetingData.meetingId = room, joinMeetingData.uid = js ''bob'',
           joinMeetingData.name = js ''Bob'', joinMeetingData.socketId = js ''sockB2''\<rparr>"
  have iF: "inv (cached meetingFull)" by (simp add: inv_cached meetingFull_def meetingA_def)
  have iB: "inv (cached meetingAB)" by (simp add: inv_cached meetingAB_def meetingA_def)
  have aF: "isActive meetingFull" by (simp add: meetingFull_def meetingA_def)
  have aB: "isActive meetingAB" by (simp add: meetingAB_def meetingA_def)
  have lF: "lookup (cached meetingFull) (joinMeetingData.meetingId ?z) = Some meetingFull"
    by (simp add: lookup_cached)
  have lB: "lookup (cached meetingAB) (joinMeetingData.meetingId ?b) = Some meetingAB"
    by (simp add: lookup_cached)
  have nF: "length (participants meetingFull) = 10"
    by (simp add: meetingFull_def js_def)
  have zF: "joinMeetingData.uid ?z \<notin> participant.uid ` set (participants meetingFull)"
    by (simp add: meetingFull_def js_def guest_def)
  have pB: "participants meetingAB = [alice, bob]" by (simp add: meetingAB_def)
  have uB: "participant.uid alice \<noteq> js ''bob''" "participant.uid bob = js ''bob''"
    by (simp_all add: alice_def bob_def js_def)
  from joinMeeting_full_and_rejoin[OF iF lF aF surjective_pairing] nF zF
  have 1: "fst (joinMeeting (cached meetingFull) ?z 5) = Inl (Full 10)" by simp
  from joinMeeting_full_and_rejoin[OF iB lB aB surjective_pairing, of 5] pB uB
  have 2: "fst (joinMeeting (cached meetingAB) ?b 5)
     = Inr (meetingAB\<lparr>participants := [alice, bob\<lparr>participant.socketId := js ''sockB2''\<rparr>]\<rparr>)"
    by (auto simp: less_Suc_eq)
  from iF aF nF 1 iB 2 show ?thesis by simp
qed

subsection \<open>A meeting that has ended stays ended\<close>

lemma ended_getMeetingById:
  assumes "ended s mid" and "getMeetingById s k = (g, s1)"
  shows "ended s1 mid" and "k = mid \<Longrightarrow> \<exists>m. g = Some m \<and> \<not> isActive m"
proof -
  from assms(1) obtain d where v: "isValidMeetingId mid" and d: "docs s mid = Some d" "\<not> isActive d"
    and c: "\<And>m. activeMeetings s mid = Some m \<Longrightarrow> \<not> isActive m"
    by (auto simp: ended_def)
  show "ended s1 mid"
    using assms(2) v d c
    by (cases "activeMeetings s k"; cases "docs s k")
       (auto simp: ended_def getMeetingById_def docGet_def split: if_splits)
  show "\<exists>m. g = Some m \<and> \<not> isActive m" if "k = mid"
  proof -
    have "g = lookup s mid" using getMeetingById_lookup[of s mid] assms(2) that by simp
    with v d c show ?thesis by (cases "activeMeetings s mid") (simp_all add: lookup_def)
  qed
qed

lemma ended_startSummary [simp]: "ended (startSummary s k ms) mid = ended s mid"
  by (simp add: startSummary_def ended_def)

lemma ended_joinMeeting:
  assumes "ended s mid" and "joinMeeting s data now = (r, s')"
  shows "ended s' mid" and "joinMeetingData.meetingId data = mid \<Longrightarrow> r = Inl Inactive"
proof -
  let ?k = "joinMeetingData.meetingId data"
  obtain g s1 where g: "getMeetingById s ?k = (g, s1)" by (cases "getMeetingById s ?k")
  note e = ended_getMeetingById[OF assms(1) g]
  show "?k = mid \<Longrightarrow> r = Inl Inactive"
    using e(2) g assms(2) by (auto simp: joinMeeting_def Let_def)
  show "ended s' mid"
  proof (cases "?k = mid")
    case True
    with e g assms(2) show ?thesis by (auto simp: joinMeeting_def Let_def)
  next
    case False
    with e(1) g assms(2) show ?thesis
      by (cases g)
         (auto simp: joinMeeting_def Let_def docUpdate_def ended_def
               split: if_splits option.splits)
  qed
qed

lemma ended_leaveMeeting:
  assumes "ended s mid"
  shows "ended (leaveMeeting s k sid) mid"
proof -
  obtain g s1 where g: "getMeetingById s k = (g, s1)" by (cases "getMeetingById s k")
  note e = ended_getMeetingById[OF assms g]
  show ?thesis
  proof (cases g)
    case None
    with e(1) g show ?thesis by (simp add: leaveMeeting_def)
  next
    case (Some m)
    with e g show ?thesis
      by (auto simp: leaveMeeting_def Let_def docUpdate_def ended_def
               split: if_splits option.splits)
  qed
qed

lemma ended_endMeeting:
  assumes "ended s mid" and "endMeeting s k u = (r, s')"
  shows "ended s' mid"
proof -
  obtain g s1 where g: "getMeetingById s k = (g, s1)" by (cases "getMeetingById s k")
  note e = ended_getMeetingById[OF assms(1) g]
  show ?thesis
  proof (cases g)
    case None
    with e(1) g assms(2) show ?thesis by (simp add: endMeeting_def)
  next
    case (Some m)
    with e g assms(2) show ?thesis
      by (auto simp: endMeeting_def Let_def docUpdate_def ended_def
               split: if_splits option.splits)
  qed
qed

lemma ended_addMessage:
  assumes "ended s mid" and "addMessage s k msg = (r, s')"
  shows "ended s' mid"
proof -
  obtain g s1 where g: "getMeetingById s k = (g, s1)" by (cases "getMeetingById s k")
  note e = ended_getMeetingById[OF assms(1) g]
  show ?thesis
  proof (cases g)
    case None
    with e(1) g assms(2) show ?thesis by (simp add: addMessage_def)
  next
    case (Some m)
    with e g assms(2) show ?thesis
      by (auto simp: addMessage_def Let_def docUpdate_def ended_def
               split: if_splits option.splits)
  qed
qed

lemma ended_getParticipants:
  assumes "ended s mid"
  shows "ended (snd (getParticipants s k)) mid"
proof -
  obtain g s1 where g: "getMeetingById s k = (g, s1)" by (cases "getMeetingById s k")
  with ended_getMeetingById(1)[OF assms g] show ?thesis
    by (cases g) (simp_all add: getParticipants_def)
qed

lemma ended_summaryReady:
  assumes "ended s mid"
  shows "ended (summaryReady s k summ) mid"
proof (cases "docs s k")
  case None
  with assms show ?thesis by (simp add: summaryReady_def docUpdate_None ended_def)
next
  case (Some d)
  with assms show ?thesis by (auto simp: summaryReady_def docUpdate_Some ended_def)
qed

lemma ended_freshMeetingId:
  "ended s mid \<Longrightarrow> freshMeetingId s draws = (r, s1) \<Longrightarrow> ended s1 mid \<and> r \<noteq> Some mid"
proof (induction draws arbitrary: s)
  case Nil
  then show ?case by simp
next
  case (Cons c cs)
  obtain g s2 where g: "getMeetingById s c = (g, s2)" by (cases "getMeetingById s c")
  note e = ended_getMeetingById[OF Cons.prems(1) g]
  show ?case
  proof (cases g)
    case None
    with e g Cons.prems(2) show ?thesis by auto
  next
    case (Some m)
    with g Cons.prems(2) have "freshMeetingId s2 cs = (r, s1)" by simp
    with Cons.IH[OF e(1)] show ?thesis .
  qed
qed

lemma ended_createMeeting:
  assumes "ended s mid" and "createMeeting s data now stamp draws = (r, s')"
  shows "ended s' mid"
proof -
  obtain g s1 where g: "freshMeetingId s draws = (g, s1)" by (cases "freshMeetingId s draws")
  from ended_freshMeetingId[OF assms(1) g] have e: "ended s1 mid" "g \<noteq> Some mid" by simp_all
  show ?thesis
  proof (cases g)
    case None
    with assms(2) g e show ?thesis by (simp add: createMeeting_def)
  next
    case (Some a)
    with e(2) have "a \<noteq> mid" by simp
    with assms(2) g Some e(1) show ?thesis
      by (auto simp: createMeeting_def Let_def docSet_def ended_def)
  qed
qed

lemma ended_step: "ended s mid \<Longrightarrow> ended (step s x) mid"
proof (cases x)
  case (OpCreate data now stamp draws)
  assume "ended s mid"
  then show ?thesis
    using ended_createMeeting[of s mid data now stamp draws] OpCreate
    by (cases "createMeeting s data now stamp draws") simp
next
  case (OpGet k)
  assume "ended s mid"
  then show ?thesis
    using ended_getMeetingById(1)[of s mid k] OpGet by (cases "getMeetingById s k") simp
next
  case (OpEnd k u)
  assume "ended s mid"
  then show ?thesis
    using ended_endMeeting[of s mid k u] OpEnd by (cases "endMeeting s k u") simp
next
  case (OpJoin data now)
  assume "ended s mid"
  then show ?thesis
    using ended_joinMeeting(1)[of s mid data now] OpJoin by (cases "joinMeeting s data now") simp
next
  case (OpLeave k sid)
  assume "ended s mid"
  then show ?thesis using ended_leaveMeeting[of s mid k sid] OpLeave by simp
next
  case (OpAddMessage k msg)
  assume "ended s mid"
  then show ?thesis
    using ended_addMessage[of s mid k msg] OpAddMessage by (cases "addMessage s k msg") simp
next
  case (OpGetParticipants k)
  assume "ended s mid"
  then show ?thesis using ended_getParticipants[of s mid k] OpGetParticipants by simp
next
  case (OpSummaryReady k summ)
  assume "ended s mid"
  then show ?thesis using ended_summaryReady[of s mid k summ] OpSummaryReady by simp
qed

lemma ended_run: "ended s mid \<Longrightarrow> ended (run s ops) mid"
  unfolding run_def by (induction ops arbitrary: s) (simp_all add: ended_step)

subsection \<open>Leaving a meeting\<close>

text \<open>
  C4. In a state that satisfies the invariant, for a meeting with exactly one participant,
  \<open>leaveMeeting\<close> with the session identifier of that participant removes the meeting from
  the cache and writes the empty participant list and \<open>isActive\<close> false to its document; and
  after any further run of the service, every \<open>joinMeeting\<close> on that meeting fails with
  \<open>Inactive\<close>.
\<close>

theorem leaveMeeting_last_participant:
  assumes "inv s" and "lookup s mid = Some m" and "participants m = [p]"
    and "participant.socketId p = sid"
  shows "activeMeetings (leaveMeeting s mid sid) mid = None \<and>
         (\<exists>d. docs s mid = Some d \<and>
              docs (leaveMeeting s mid sid)
                = (docs s)(mid \<mapsto> d\<lparr>participants := [], isActive := False\<rparr>)) \<and>
         (\<forall>ops data now. joinMeetingData.meetingId data = mid \<longrightarrow>
              fst (joinMeeting (run (leaveMeeting s mid sid) ops) data now) = Inl Inactive)"
proof -
  let ?s' = "leaveMeeting s mid sid"
  obtain s1 where g: "getMeetingById s mid = (Some m, s1)"
    and d1: "docs s1 = docs s"
    and c1: "activeMeetings s1 = (activeMeetings s)(mid \<mapsto> m)"
    using getMeetingById_eq[of s mid] assms(2) by auto
  from lookup_Some_doc[OF assms(1,2)] obtain d where d: "docs s mid = Some d" by blast
  have v: "isValidMeetingId mid" using assms(2) by (simp add: lookup_def split: if_splits)
  from g assms(3,4) d d1 c1
  have a: "activeMeetings ?s' mid = None"
    and b: "docs ?s' = (docs s)(mid \<mapsto> d\<lparr>participants := [], isActive := False\<rparr>)"
    by (simp_all add: leaveMeeting_def Let_def docUpdate_Some[where d=d])
  from a b v have e: "ended ?s' mid" by (simp add: ended_def)
  have "fst (joinMeeting (run ?s' ops) data now) = Inl Inactive"
    if "joinMeetingData.meetingId data = mid" for ops data now
    using ended_joinMeeting(2)[OF ended_run[OF e, of ops] surjective_pairing that] .
  with a b d show ?thesis by simp
qed

theorem leaveMeeting_last_participant_witness:
  "inv (cached meetingA) \<and> lookup (cached meetingA) room = Some meetingA \<and>
   participants meetingA = [alice] \<and> participant.socketId alice = js ''sockA'' \<and>
   activeMeetings (leaveMeeting (cached meetingA) room (js ''sockA'')) room = None \<and>
   docs (leaveMeeting (cached meetingA) room (js ''sockA'')) room
     = Some (meetingA\<lparr>participants := [], isActive := False\<rparr>) \<and>
   fst (joinMeeting
          (run (leaveMeeting (cached meetingA) room (js ''sockA''))
             [OpAddMessage room hello, OpGetParticipants room])
          \<lparr>joinMeetingData.meetingId = room, joinMeetingData.uid = js ''bob'',
           joinMeetingData.name = js ''Bob'', joinMeetingData.socketId = js ''sockB''\<rparr> 9)
     = Inl Inactive"
proof -
  have i: "inv (cached meetingA)" by (simp add: inv_cached meetingA_def)
  have l: "lookup (cached meetingA) room = Some meetingA" by (rule lookup_cached)
  have p: "participants meetingA = [alice]" by (simp add: meetingA_def)
  have k: "participant.socketId alice = js ''sockA''" by (simp add: alice_def)
  have dA: "docs (cached meetingA) room = Some meetingA" by (simp add: cached_def)
  from leaveMeeting_last_participant[OF i l p k] i l p k dA show ?thesis by simp
qed

subsection \<open>Adding a message\<close>

text \<open>
  C2, as stated, fails. After the run \<open>overRun\<close> the meeting \<open>room\<close> has ended and is not
  in the cache, while its document exists; there \<open>addMessage\<close> reads the store, succeeds
  and appends the message to the document.
\<close>

theorem addMessage_cache_miss_counterexample:
  "activeMeetings overState room = None \<and>
   docs overState room = Some meetingOver \<and>
   \<not> isActive meetingOver \<and>
   fst (addMessage overState room hello) = Inr () \<and>
   dbCalls (snd (addMessage overState room hello))
     = dbCalls overState @ [DocGet room, DocUpdate room] \<and>
   docs (snd (addMessage overState room hello)) room
     = Some (meetingOver\<lparr>messages := [hello]\<rparr>)"
  by (simp add: overState_eq addMessage_def getMeetingById_def docGet_def docUpdate_def Let_def
        stored_def valid_room meetingOver_def meetingAB_def meetingA_def)

text \<open>
  C2, amended. In a state that satisfies the invariant, \<open>getMeetingById\<close> finds no meeting
  exactly when the identifier is malformed or the meeting is neither in the cache nor in the
  store, and then \<open>addMessage\<close> fails with \<open>NotFound\<close> and leaves the cache and the documents
  as they are. For a well-formed identifier that is not in the cache the first call on the
  store is the read of the document. When the meeting is held and is active, \<open>addMessage\<close>
  succeeds, the cache holds the meeting with the message appended, and the full message
  list is written to the document. Nothing is stated here of what \<open>addMessage\<close> does with a
  meeting that has ended.
\<close>

theorem addMessage_contract:
  assumes "inv s" and "addMessage s mid message = (r, s')"
  shows "(lookup s mid = None \<longleftrightarrow>
            \<not> isValidMeetingId mid \<or> (activeMeetings s mid = None \<and> docs s mid = None)) \<and>
         (lookup s mid = None \<longrightarrow>
            r = Inl NotFound \<and> docs s' = docs s \<and> activeMeetings s' = activeMeetings s) \<and>
         (isValidMeetingId mid \<and> activeMeetings s mid = None \<longrightarrow>
            (\<exists>cs. dbCalls s' = dbCalls s @ DocGet mid # cs)) \<and>
         (\<forall>m. lookup s mid = Some m \<and> isActive m \<longrightarrow>
              r = Inr () \<and>
              activeMeetings s' = (activeMeetings s)(mid \<mapsto> m\<lparr>messages := messages m @ [message]\<rparr>) \<and>
              (\<exists>d. docs s mid = Some d \<and>
                   docs s' = (docs s)(mid \<mapsto> d\<lparr>messages := messages m @ [message]\<rparr>)))"
proof -
  obtain s1 where g: "getMeetingById s mid = (lookup s mid, s1)"
    and d1: "docs s1 = docs s"
    and c1: "activeMeetings s1 =
          (case lookup s mid of None \<Rightarrow> activeMeetings s
           | Some m \<Rightarrow> (activeMeetings s)(mid \<mapsto> m))"
    using getMeetingById_eq[of s mid] by blast
  have abs: "lookup s mid = None \<longleftrightarrow>
            \<not> isValidMeetingId mid \<or> (activeMeetings s mid = None \<and> docs s mid = None)"
    by (auto simp: lookup_def split: option.splits)
  have lg: "\<exists>cs. dbCalls s' = dbCalls s @ DocGet mid # cs"
    if "isValidMeetingId mid" and "activeMeetings s mid = None"
    using that assms(2)
    by (cases "docs s mid")
       (auto simp: addMessage_def getMeetingById_def docGet_def docUpdate_def Let_def)
  show ?thesis
  proof (cases "lookup s mid")
    case None
    with g assms(2) d1 c1 abs lg show ?thesis by (auto simp: addMessage_def)
  next
    case (Some m)
    from lookup_Some_doc[OF assms(1) Some] obtain d where d: "docs s mid = Some d" by blast
    from g Some assms(2) d d1 c1
    have "r = Inr () \<and>
          activeMeetings s' = (activeMeetings s)(mid \<mapsto> m\<lparr>messages := messages m @ [message]\<rparr>) \<and>
          docs s' = (docs s)(mid \<mapsto> d\<lparr>messages := messages m @ [message]\<rparr>)"
      by (auto simp: addMessage_def Let_def docUpdate_Some[where d=d])
    with Some d abs lg show ?thesis by auto
  qed
qed

theorem addMessage_contract_witness:
  "inv (cached meetingA) \<and>
   lookup (cached meetingA) (js ''999999'') = None \<and>
   isValidMeetingId (js ''999999'') \<and> activeMeetings (cached meetingA) (js ''999999'') = None \<and>
   fst (addMessage (cached meetingA) (js ''999999'') hello) = Inl NotFound \<and>
   (\<exists>cs. dbCalls (snd (addMessage (cached meetingA) (js ''999999'') hello))
           = dbCalls (cached meetingA) @ DocGet (js ''999999'') # cs) \<and>
   lookup (cached meetingA) room = Some meetingA \<and> isActive meetingA \<and>
   fst (addMessage (cached meetingA) room hello) = Inr () \<and>
   activeMeetings (snd (addMessage (cached meetingA) room hello)) room
     = Some (meetingA\<lparr>messages := [hello]\<rparr>) \<and>
   docs (snd (addMessage (cached meetingA) room hello)) room
     = Some (meetingA\<lparr>messages := [hello]\<rparr>)"
proof -
  have i: "inv (cached meetingA)" by (simp add: inv_cached meetingA_def)
  have l: "lookup (cached meetingA) room = Some meetingA" by (rule lookup_cached)
  have n: "lookup (cached meetingA) (js ''999999'') = None"
    "activeMeetings (cached meetingA) (js ''999999'') = None"
    by (simp_all add: lookup_def cached_def room_def js_def)
  have v: "isValidMeetingId (js ''999999'')"
    by (simp add: isValidMeetingId_conv js_def isDigit_def)
  have c: "isActive meetingA" "messages meetingA = []"
    "docs (cached meetingA) room = Some meetingA"
    by (simp_all add: cached_def meetingA_def)
  note t = addMessage_contract[OF i surjective_pairing]
  from t[of "js ''999999''" hello] n v
  have 1: "fst (addMessage (cached meetingA) (js ''999999'') hello) = Inl NotFound \<and>
   (\<exists>cs. dbCalls (snd (addMessage (cached meetingA) (js ''999999'') hello))
           = dbCalls (cached meetingA) @ DocGet (js ''999999'') # cs)"
    by simp
  from t[of room hello] l c
  have 2: "fst (addMessage (cached meetingA) room hello) = Inr () \<and>
   activeMeetings (snd (addMessage (cached meetingA) room hello)) room
     = Some (meetingA\<lparr>messages := [hello]\<rparr>) \<and>
   docs (snd (addMessage (cached meetingA) room hello)) room
     = Some (meetingA\<lparr>messages := [hello]\<rparr>)"
    by simp
  from i n v l c(1) 1 2 show ?thesis by simp
qed

subsection \<open>What a join leaves alone\<close>

text \<open>
  C10. For every call of \<open>joinMeeting\<close>, successful or failed: nothing changes under any
  other identifier; when no meeting is found nothing changes at all; the meeting held under
  the identifier is afterwards the old one with a new participant list (so its
  \<^verbatim>\<open>messages\<close>, \<^verbatim>\<open>createdBy\<close>, \<^verbatim>\<open>createdAt\<close>, \<^verbatim>\<open>maxParticipants\<close>,
  \<^verbatim>\<open>isActive\<close> and \<^verbatim>\<open>summary\<close> are unchanged), and that list is the old list, or the
  old list with the new participant appended, or the old list with the \<^verbatim>\<open>socketId\<close> of
  one entry replaced; the document is afterwards the old document with a new participant
  list.
\<close>

theorem joinMeeting_frame:
  assumes "joinMeeting s data now = (r, s')"
  shows "(\<forall>k. k \<noteq> joinMeetingData.meetingId data \<longrightarrow>
              docs s' k = docs s k \<and> activeMeetings s' k = activeMeetings s k) \<and>
         (lookup s (joinMeetingData.meetingId data) = None \<longrightarrow>
              docs s' = docs s \<and> activeMeetings s' = activeMeetings s) \<and>
         (\<forall>m. lookup s (joinMeetingData.meetingId data) = Some m \<longrightarrow>
              (\<exists>ps. lookup s' (joinMeetingData.meetingId data) = Some (m\<lparr>participants := ps\<rparr>) \<and>
                 (ps = participants m \<or>
                  ps = participants m @
                         [\<lparr>participant.uid = joinMeetingData.uid data,
                           participant.name = joinMeetingData.name data,
                           participant.socketId = joinMeetingData.socketId data,
                           joinedAt = now\<rparr>] \<or>
                  (\<exists>i<length (participants m).
                     ps = (participants m)
                            [i := (participants m ! i)
                                    \<lparr>participant.socketId := joinMeetingData.socketId data\<rparr>])))) \<and>
         (\<forall>d. docs s (joinMeetingData.meetingId data) = Some d \<longrightarrow>
              (\<exists>ps. docs s' (joinMeetingData.meetingId data) = Some (d\<lparr>participants := ps\<rparr>))) \<and>
         (docs s (joinMeetingData.meetingId data) = None \<longrightarrow>
              docs s' (joinMeetingData.meetingId data) = None)"
proof -
  let ?mid = "joinMeetingData.meetingId data"
  let ?u = "joinMeetingData.uid data"
  let ?sid = "joinMeetingData.socketId data"
  obtain s1 where g: "getMeetingById s ?mid = (lookup s ?mid, s1)"
    and d1: "docs s1 = docs s" and l1: "\<forall>k. lookup s1 k = lookup s k"
    and c1: "activeMeetings s1 =
          (case lookup s ?mid of None \<Rightarrow> activeMeetings s
           | Some m \<Rightarrow> (activeMeetings s)(?mid \<mapsto> m))"
    using getMeetingById_eq[of s ?mid] by blast
  have same: "\<exists>ps. Some d = Some (d\<lparr>participants := ps\<rparr>)" for d :: meeting
    by (rule exI[of _ "participants d"]) simp
  show ?thesis
  proof (cases "lookup s ?mid")
    case None
    with g assms d1 c1 have "docs s' = docs s" "activeMeetings s' = activeMeetings s"
      by (simp_all add: joinMeeting_def)
    with None same show ?thesis by simp
  next
    case (Some m)
    then have v: "isValidMeetingId ?mid" by (simp add: lookup_def split: if_splits)
    have m0: "m\<lparr>participants := participants m\<rparr> = m" by simp
    consider (stay) "s' = s1"
      | (change) ps where
          "ps = participants m @
                         [\<lparr>participant.uid = ?u, participant.name = joinMeetingData.name data,
                           participant.socketId = ?sid, joinedAt = now\<rparr>] \<or>
           (\<exists>i<length (participants m).
              ps = (participants m)[i := (participants m ! i)\<lparr>participant.socketId := ?sid\<rparr>])"
          "activeMeetings s' = (activeMeetings s1)(?mid \<mapsto> m\<lparr>participants := ps\<rparr>)"
          "docs s' = (case docs s1 ?mid of None \<Rightarrow> docs s1
                      | Some d \<Rightarrow> (docs s1)(?mid \<mapsto> d\<lparr>participants := ps\<rparr>))"
    proof (cases "find (\<lambda>p. participant.uid p = ?u) (participants m)")
      case None
      with g Some assms show thesis
        by (cases "docs s1 ?mid")
           (auto simp: joinMeeting_def Let_def docUpdate_def split: if_splits intro: stay change)
    next
      case (Some p)
      from find_setSocketId[OF Some, of ?sid]
      obtain i where i: "i < length (participants m)" "participants m ! i = p"
        "setSocketId ?u ?sid (participants m) = (participants m)[i := p\<lparr>participant.socketId := ?sid\<rparr>]"
        by blast
      let ?ps = "(participants m)[i := (participants m ! i)\<lparr>participant.socketId := ?sid\<rparr>]"
      have "\<not> isActive m \<Longrightarrow> thesis"
        using g \<open>lookup s ?mid = Some m\<close> assms by (auto simp: joinMeeting_def Let_def intro: stay)
      moreover have "isActive m \<Longrightarrow> thesis"
      proof -
        assume a: "isActive m"
        have "activeMeetings s' = (activeMeetings s1)(?mid \<mapsto> m\<lparr>participants := ?ps\<rparr>) \<and>
          docs s' = (case docs s1 ?mid of None \<Rightarrow> docs s1
                      | Some d \<Rightarrow> (docs s1)(?mid \<mapsto> d\<lparr>participants := ?ps\<rparr>))"
          using g \<open>lookup s ?mid = Some m\<close> assms Some i a
          by (cases "docs s1 ?mid") (auto simp: joinMeeting_def Let_def docUpdate_def)
        with i(1) show thesis by (intro change[of ?ps]) auto
      qed
      ultimately show thesis by blast
    qed
    then show ?thesis
    proof cases
      case stay
      have "lookup s' ?mid = Some (m\<lparr>participants := participants m\<rparr>)"
        using stay Some l1 by simp
      then have L: "\<forall>m'. lookup s ?mid = Some m' \<longrightarrow>
              (\<exists>ps. lookup s' ?mid = Some (m'\<lparr>participants := ps\<rparr>) \<and>
                 (ps = participants m' \<or>
                  ps = participants m' @
                         [\<lparr>participant.uid = ?u, participant.name = joinMeetingData.name data,
                           participant.socketId = ?sid, joinedAt = now\<rparr>] \<or>
                  (\<exists>i<length (participants m').
                     ps = (participants m')
                            [i := (participants m' ! i)\<lparr>participant.socketId := ?sid\<rparr>])))"
        using Some by (intro allI impI exI[of _ "participants m"]) simp
      have ds: "docs s' = docs s" using stay d1 by simp
      have K: "\<forall>k. k \<noteq> ?mid \<longrightarrow> docs s' k = docs s k \<and> activeMeetings s' k = activeMeetings s k"
        using stay d1 c1 Some by simp
      have N: "lookup s ?mid = None \<longrightarrow> docs s' = docs s \<and> activeMeetings s' = activeMeetings s"
        using Some by simp
      have D: "\<forall>d. docs s ?mid = Some d \<longrightarrow> (\<exists>ps. docs s' ?mid = Some (d\<lparr>participants := ps\<rparr>))"
        using ds same by simp
      have E: "docs s ?mid = None \<longrightarrow> docs s' ?mid = None"
        using ds by simp
      from K N L D E show ?thesis by (intro conjI)
    next
      case (change ps)
      have "lookup s' ?mid = Some (m\<lparr>participants := ps\<rparr>)"
        using change(2) v by (simp add: lookup_def)
      then have L: "\<forall>m'. lookup s ?mid = Some m' \<longrightarrow>
              (\<exists>ps. lookup s' ?mid = Some (m'\<lparr>participants := ps\<rparr>) \<and>
                 (ps = participants m' \<or>
                  ps = participants m' @
                         [\<lparr>participant.uid = ?u, participant.name = joinMeetingData.name data,
                           participant.socketId = ?sid, joinedAt = now\<rparr>] \<or>
                  (\<exists>i<length (participants m').
                     ps = (participants m')
                            [i := (participants m' ! i)\<lparr>participant.socketId := ?sid\<rparr>])))"
        using Some change(1) by (intro allI impI exI[of _ ps]) auto
      have K: "\<forall>k. k \<noteq> ?mid \<longrightarrow> docs s' k = docs s k \<and> activeMeetings s' k = activeMeetings s k"
        using change(2,3) d1 c1 Some by (auto split: option.splits)
      have N: "lookup s ?mid = None \<longrightarrow> docs s' = docs s \<and> activeMeetings s' = activeMeetings s"
        using Some by simp
      have D: "\<forall>d. docs s ?mid = Some d \<longrightarrow> (\<exists>ps. docs s' ?mid = Some (d\<lparr>participants := ps\<rparr>))"
        using change(3) d1 by auto
      have E: "docs s ?mid = None \<longrightarrow> docs s' ?mid = None"
        using change(3) d1 by simp
      from K N L D E show ?thesis by (intro conjI)
    qed
  qed
qed

theorem joinMeeting_frame_witness:
  "lookup (cached meetingA) (joinMeetingData.meetingId joinB) = Some meetingA \<and>
   docs (cached meetingA) (joinMeetingData.meetingId joinB) = Some meetingA \<and>
   (\<exists>ps. lookup (snd (joinMeeting (cached meetingA) joinB 2)) (joinMeetingData.meetingId joinB)
           = Some (meetingA\<lparr>participants := ps\<rparr>)) \<and>
   (\<exists>ps. docs (snd (joinMeeting (cached meetingA) joinB 2)) (joinMeetingData.meetingId joinB)
           = Some (meetingA\<lparr>participants := ps\<rparr>)) \<and>
   docs (snd (joinMeeting (cached meetingA) joinB 2)) (js ''654321'')
     = docs (cached meetingA) (js ''654321'')"
proof -
  have k: "joinMeetingData.meetingId joinB = room" by (simp add: joinB_def)
  have l: "lookup (cached meetingA) (joinMeetingData.meetingId joinB) = Some meetingA"
    by (simp add: k lookup_cached)
  have d: "docs (cached meetingA) (joinMeetingData.meetingId joinB) = Some meetingA"
    by (simp add: k cached_def)
  have n: "js ''654321'' \<noteq> joinMeetingData.meetingId joinB"
    by (simp add: k room_def js_def)
  from joinMeeting_frame[OF surjective_pairing, where s = "cached meetingA" and data = joinB
      and now = 2] l d n
  show ?thesis by blast
qed

subsection \<open>The join-meeting handler\<close>

text \<open>
  C6, as stated, fails: for a payload whose meeting identifier is malformed the handler
  sends the connection one event, and it is the event \<^verbatim>\<open>error\<close>, neither
  \<^verbatim>\<open>joined-meeting\<close> nor \<^verbatim>\<open>join-error\<close>.
\<close>

theorem onJoinMeeting_invalid_counterexample:
  "repliesToSender
     (fst (onJoinMeeting (cached meetingA) sockB
             \<lparr>joinMeetingEvent.meetingId = js ''12'', joinMeetingEvent.uid = js ''bob'',
              joinMeetingEvent.name = js ''Bob''\<rparr> 2))
   = [ErrorEvent ''Invalid meeting data'']"
  by (simp add: onJoinMeeting_def repliesToSender_def Let_def isValidMeetingId_conv js_def)

text \<open>
  C6, amended. For every inbound \<^verbatim>\<open>join-meeting\<close> event the handler sends the joining
  connection exactly one event. When the meeting identifier is not six digits, or the user
  identifier or the name is empty after trimming, it is \<^verbatim>\<open>error\<close> with the message
  "Invalid meeting data", nothing is sent to the room, and the service and the connection
  are unchanged. Otherwise, when \<open>joinMeeting\<close> fails it is \<^verbatim>\<open>join-error\<close> with the
  error of \<open>joinMeeting\<close>, and nothing is sent to the room; when \<open>joinMeeting\<close> succeeds it is
  \<^verbatim>\<open>joined-meeting\<close> with the identifier and the participants, messages and creator of
  the returned meeting, and the rest of the room is sent \<^verbatim>\<open>user-joined\<close> with the user
  identifier, the name and the number of participants.
\<close>

theorem onJoinMeeting_replies:
  assumes "onJoinMeeting s sock data now = (evs, sock', s')"
    and "jd = \<lparr>joinMeetingData.meetingId = joinMeetingEvent.meetingId data,
               joinMeetingData.uid = joinMeetingEvent.uid data,
               joinMeetingData.name = joinMeetingEvent.name data,
               joinMeetingData.socketId = sock_id sock\<rparr>"
  shows "length (repliesToSender evs) = 1 \<and>
         (\<not> (isValidMeetingId (joinMeetingEvent.meetingId data) \<and>
             isValidUserData (joinMeetingEvent.uid data) (joinMeetingEvent.name data)) \<longrightarrow>
            evs = [(ToSender, ErrorEvent ''Invalid meeting data'')] \<and> s' = s \<and> sock' = sock) \<and>
         (isValidMeetingId (joinMeetingEvent.meetingId data) \<and>
          isValidUserData (joinMeetingEvent.uid data) (joinMeetingEvent.name data) \<longrightarrow>
            (\<forall>e. fst (joinMeeting s jd now) = Inl e \<longrightarrow> evs = [(ToSender, JoinError e)]) \<and>
            (\<forall>m. fst (joinMeeting s jd now) = Inr m \<longrightarrow>
               evs = [(ToSender,
                       JoinedMeeting (joinMeetingEvent.meetingId data) (participants m)
                         (messages m) (meeting.createdBy m)),
                      (ToRestOfRoom (joinMeetingEvent.meetingId data),
                       UserJoined (joinMeetingEvent.uid data) (joinMeetingEvent.name data)
                         (length (participants m)))]))"
proof (cases "isValidMeetingId (joinMeetingEvent.meetingId data) \<and>
          isValidUserData (joinMeetingEvent.uid data) (joinMeetingEvent.name data)")
  case False
  with assms(1) show ?thesis
    by (auto simp: onJoinMeeting_def Let_def repliesToSender_def)
next
  case True
  obtain r s1 where j: "joinMeeting s jd now = (r, s1)" by (cases "joinMeeting s jd now")
  with True assms show ?thesis
    by (cases r) (auto simp: onJoinMeeting_def Let_def repliesToSender_def)
qed

theorem onJoinMeeting_replies_witness:
  "fst (onJoinMeeting (cached meetingA) sockB
          \<lparr>joinMeetingEvent.meetingId = js ''12'', joinMeetingEvent.uid = js ''bob'',
           joinMeetingEvent.name = js ''Bob''\<rparr> 2)
     = [(ToSender, ErrorEvent ''Invalid meeting data'')] \<and>
   fst (onJoinMeeting (cached meetingA) sockB
          \<lparr>joinMeetingEvent.meetingId = js ''999999'', joinMeetingEvent.uid = js ''bob'',
           joinMeetingEvent.name = js ''Bob''\<rparr> 2)
     = [(ToSender, JoinError NotFound)] \<and>
   fst (onJoinMeeting (cached meetingA) sockB
          \<lparr>joinMeetingEvent.meetingId = room, joinMeetingEvent.uid = js ''bob'',
           joinMeetingEvent.name = js ''Bob''\<rparr> 2)
     = [(ToSender, JoinedMeeting room [alice, bob] [] (js ''alice'')),
        (ToRestOfRoom room, UserJoined (js ''bob'') (js ''Bob'') 2)]"
proof -
  let ?bad = "\<lparr>joinMeetingEvent.meetingId = js ''12'', joinMeetingEvent.uid = js ''bob'',
           joinMeetingEvent.name = js ''Bob''\<rparr>"
  let ?none = "\<lparr>joinMeetingEvent.meetingId = js ''999999'', joinMeetingEvent.uid = js ''bob'',
           joinMeetingEvent.name = js ''Bob''\<rparr>"
  let ?ok = "\<lparr>joinMeetingEvent.meetingId = room, joinMeetingEvent.uid = js ''bob'',
           joinMeetingEvent.name = js ''Bob''\<rparr>"
  have u: "isValidUserData (js ''bob'') (js ''Bob'')"
    by (simp add: isValidUserData_def trim_def js_def isWhiteSpace_def)
  have b: "\<not> isValidMeetingId (js ''12'')" by (simp add: isValidMeetingId_conv js_def)
  have v9: "isValidMeetingId (js ''999999'')"
    by (simp add: isValidMeetingId_conv js_def isDigit_def)
  have j9: "fst (joinMeeting (cached meetingA)
                \<lparr>joinMeetingData.meetingId = js ''999999'', joinMeetingData.uid = js ''bob'',
                 joinMeetingData.name = js ''Bob'', joinMeetingData.socketId = sock_id sockB\<rparr> 2)
             = Inl NotFound"
  proof -
    have "lookup (cached meetingA) (js ''999999'') = None"
      by (simp add: lookup_def cached_def room_def js_def)
    then show ?thesis
      using getMeetingById_lookup[of "cached meetingA" "js ''999999''"]
      by (cases "getMeetingById (cached meetingA) (js ''999999'')")
         (simp add: joinMeeting_def)
  qed
  have jr: "fst (joinMeeting (cached meetingA)
                \<lparr>joinMeetingData.meetingId = room, joinMeetingData.uid = js ''bob'',
                 joinMeetingData.name = js ''Bob'', joinMeetingData.socketId = sock_id sockB\<rparr> 2)
             = Inr meetingAB"
    by (simp add: joinMeeting_def getMeetingById_def docUpdate_def valid_room cached_def Let_def
          meetingAB_def meetingA_def alice_def bob_def sockB_def MAX_PARTICIPANTS_def js_def)
  have f: "participants meetingAB = [alice, bob]" "messages meetingAB = []"
    "meeting.createdBy meetingAB = js ''alice''"
    by (simp_all add: meetingAB_def meetingA_def)
  have 1: "fst (onJoinMeeting (cached meetingA) sockB ?bad 2)
     = [(ToSender, ErrorEvent ''Invalid meeting data'')]"
    using onJoinMeeting_replies[of "cached meetingA" sockB ?bad 2
            "fst (onJoinMeeting (cached meetingA) sockB ?bad 2)"
            "fst (snd (onJoinMeeting (cached meetingA) sockB ?bad 2))"
            "snd (snd (onJoinMeeting (cached meetingA) sockB ?bad 2))", OF _ refl] b
    by simp
  have 2: "fst (onJoinMeeting (cached meetingA) sockB ?none 2) = [(ToSender, JoinError NotFound)]"
    using onJoinMeeting_replies[of "cached meetingA" sockB ?none 2
            "fst (onJoinMeeting (cached meetingA) sockB ?none 2)"
            "fst (snd (onJoinMeeting (cached meetingA) sockB ?none 2))"
            "snd (snd (onJoinMeeting (cached meetingA) sockB ?none 2))", OF _ refl] u v9 j9
    by simp
  have 3: "fst (onJoinMeeting (cached meetingA) sockB ?ok 2)
     = [(ToSender, JoinedMeeting room [alice, bob] [] (js ''alice'')),
        (ToRestOfRoom room, UserJoined (js ''bob'') (js ''Bob'') 2)]"
    using onJoinMeeting_replies[of "cached meetingA" sockB ?ok 2
            "fst (onJoinMeeting (cached meetingA) sockB ?ok 2)"
            "fst (snd (onJoinMeeting (cached meetingA) sockB ?ok 2))"
            "snd (snd (onJoinMeeting (cached meetingA) sockB ?ok 2))", OF _ refl] u valid_room jr f
    by simp
  from 1 2 3 show ?thesis by simp
qed

subsection \<open>An inactive meeting gains no participant\<close>



















end
